theory Spec2Isabelle
  imports Complex_Main
begin

section \<open>The radar reader of main.cpp\<close>

subsection \<open>std::stoi\<close>

text \<open>
  \<open>main\<close> converts both fields of a message with \<open>std::stoi\<close> and catches nothing, so
  an exception thrown there ends the program. The conversion follows the C++ standard
  (\<open>strtol\<close> in base 10 on the bytes of the string): leading white space is skipped, one
  sign is optional, then the longest run of decimal digits is read and whatever follows
  is ignored. No digit at all throws \<open>std::invalid_argument\<close>; a value that does not fit
  the 32-bit \<open>int\<close> throws \<open>std::out_of_range\<close>.
\<close>

datatype exn = invalid_argument | out_of_range

definition isspace :: "char \<Rightarrow> bool" where
  "isspace c = (c = CHR '' '' \<or> (9::nat) \<le> of_char c \<and> of_char c \<le> (13::nat))"

definition isdigit :: "char \<Rightarrow> bool" where
  "isdigit c = ((48::nat) \<le> of_char c \<and> of_char c \<le> (57::nat))"

definition digit_value :: "char \<Rightarrow> int" where
  "digit_value c = int (of_char c) - 48"

definition decimal :: "string \<Rightarrow> int" where
  "decimal ds = foldl (\<lambda>acc c. 10 * acc + digit_value c) 0 ds"

definition INT_MAX :: int where
  "INT_MAX = 2147483647"

definition INT_MIN :: int where
  "INT_MIN = - 2147483648"

definition strip_sign :: "string \<Rightarrow> bool \<times> string" where
  "strip_sign s =
     (case s of
        [] \<Rightarrow> (False, s)
      | c # r \<Rightarrow> if c = CHR ''-'' then (True, r)
                 else if c = CHR ''+'' then (False, r)
                 else (False, s))"

definition stoi :: "string \<Rightarrow> exn + int" where
  "stoi str =
     (let (negative, s) = strip_sign (dropWhile isspace str);
          ds = takeWhile isdigit s
      in if ds = [] then Inl invalid_argument
         else let v = (if negative then - decimal ds else decimal ds)
              in if v < INT_MIN \<or> INT_MAX < v then Inl out_of_range else Inr v)"

subsection \<open>IEEE doubles\<close>

text \<open>
  The arithmetic of \<open>main.cpp\<close> on \<open>double\<close> is the IEEE one: every operation gives the
  exact result rounded to the nearest number with 53 significant bits, ties going to the
  even one, and every operation is rounded on its own (a product is not fused with the
  sum that takes it). A double is written as a pair \<open>(m, e)\<close> standing for \<open>m * 2 ^ e\<close>; the pair
  of a value is not unique and \<open>val\<close> gives the value. Exponents are not bounded here:
  the program stays far from the largest and the smallest doubles. A conversion to
  \<open>int\<close> drops the fraction; C++ leaves it undefined when the result does not fit
  \<open>int\<close>, and the model gives the whole part there as well.
\<close>

type_synonym double = "int \<times> int"

text \<open>The number of binary digits of a positive integer.\<close>

function bits :: "int \<Rightarrow> nat" where
  "bits n = (if n \<le> 0 then 0 else Suc (bits (n div 2)))"
  by pat_completeness auto
termination
  by (relation "measure nat") auto

declare bits.simps [simp del]

text \<open>\<open>n / 2 ^ sh\<close> rounded to the nearest integer, a tie going to the even one.\<close>

definition round_shift :: "int \<Rightarrow> nat \<Rightarrow> int" where
  "round_shift n sh =
     (let q = n div 2 ^ sh; r = n mod 2 ^ sh
      in if 2 * r < 2 ^ sh then q
         else if 2 ^ sh < 2 * r then q + 1
         else if even q then q else q + 1)"

definition round_double :: "int \<times> int \<Rightarrow> double" where
  "round_double x =
     (let sh = bits \<bar>fst x\<bar> - 53 in (round_shift (fst x) sh, snd x + int sh))"

definition d_of_int :: "int \<Rightarrow> double" where
  "d_of_int n = round_double (n, 0)"

definition d_add :: "double \<Rightarrow> double \<Rightarrow> double" where
  "d_add a b =
     (let e = min (snd a) (snd b)
      in round_double (fst a * 2 ^ nat (snd a - e) + fst b * 2 ^ nat (snd b - e), e))"

definition d_sub :: "double \<Rightarrow> double \<Rightarrow> double" where
  "d_sub a b =
     (let e = min (snd a) (snd b)
      in round_double (fst a * 2 ^ nat (snd a - e) - fst b * 2 ^ nat (snd b - e), e))"

definition d_mul :: "double \<Rightarrow> double \<Rightarrow> double" where
  "d_mul a b = round_double (fst a * fst b, snd a + snd b)"

definition double_to_int :: "double \<Rightarrow> int" where
  "double_to_int a =
     (if 0 \<le> snd a then fst a * 2 ^ nat (snd a)
      else sgn (fst a) * (\<bar>fst a\<bar> div 2 ^ nat (- snd a)))"

definition val :: "double \<Rightarrow> real" where
  "val a =
     (if 0 \<le> snd a then real_of_int (fst a * 2 ^ nat (snd a))
      else real_of_int (fst a) / 2 ^ nat (- snd a))"

text \<open>
  The constants of the source as doubles: the literal \<open>1.4\<close> is
  \<open>0x1.6666666666666p+0\<close> and \<open>M_PI / 180\<close> is \<open>0x1.1df46a2529d39p-6\<close>.
\<close>

definition double_1_4 :: double where
  "double_1_4 = (3152519739159347, - 51)"

definition M_PI_180 :: double where
  "M_PI_180 = (5030569068109113, - 58)"

subsection \<open>Drawing calls\<close>

text \<open>
  A frame is the sequence of OpenCV drawing calls made on it since it was last cleared.
  Colours are \<open>cv::Scalar\<close> values in blue, green, red order; a channel is the value of
  a double. A call of \<open>drawLineAtAngle\<close> is recorded with its arguments, and the centre
  of a blip as the call of \<open>calculate_circle_point\<close> with its arguments; what the two
  functions compute follows under their names below.
\<close>

type_synonym scalar = "real \<times> real \<times> real"

datatype point =
    Point int int
  | calculate_circle_point int int

datatype label =
    Str string
  | to_string int
  | to_string_cm int

datatype draw_call =
    SetTo scalar
  | Circle point int scalar int
  | Line point point scalar
  | Rectangle point point scalar int
  | PutText label point real scalar
  | DrawLineAtAngle point int int scalar bool

type_synonym frame = "draw_call list"

definition width :: int where
  "width = 240"

definition height :: int where
  "height = 140"

definition circle_center :: point where
  "circle_center = Point (width div 2) (height - 20)"

definition green :: scalar where
  "green = (0, 180, 0)"

definition background :: scalar where
  "background = (30, 30, 30)"

definition angle_display :: "int \<times> int" where
  "angle_display = (5, height - 5)"

definition distance_display :: "int \<times> int" where
  "distance_display = (width div 2 - 20, height - 5)"

subsection \<open>Program state\<close>

text \<open>
  \<open>data\<close> is the string the reads are appended to, \<open>line_deque\<close> the global deque
  (front first), \<open>arduino_measurements\<close> the \<open>std::map\<close> of \<open>main\<close>, \<open>radar\<close> the
  frame being drawn. \<open>shown\<close> lists the frames handed to \<open>cv::imshow\<close>, oldest first,
  and \<open>cerr\<close> the lines written to the error stream. \<open>records\<close> is a history of the
  \<open>(degree, distanceCM)\<close> pairs \<open>updateRadar\<close> was called with, oldest first; the
  program keeps no such list. \<open>terminated\<close> holds the exception that ended the program.
\<close>

record state =
  data :: string
  line_deque :: "(int \<times> int) list"
  arduino_measurements :: "int \<rightharpoonup> int"
  radar :: frame
  shown :: "frame list"
  cerr :: "string list"
  records :: "(int \<times> int) list"
  terminated :: "exn option"

subsection \<open>drawRadar\<close>

definition drawRadar_calls :: frame where
  "drawRadar_calls =
     [SetTo background, Circle circle_center 3 green (- 1)]
     @ map (\<lambda>radius. Circle circle_center (radius * 20) green 1) [1, 2, 3, 4, 5]
     @ map (\<lambda>angle. DrawLineAtAngle circle_center (angle * 30) 104 green True) [1, 2, 3, 4, 5]
     @ [Line (Point 0 (height - 21)) (Point width (height - 21)) green,
        Rectangle (Point 0 (height - 20)) (Point width height) (15, 15, 15) (- 1),
        PutText (Str ''Degree: '') (Point (fst angle_display) (snd angle_display)) 0.8 green,
        PutText (Str ''Distance: '') (Point (fst distance_display) (snd distance_display)) 0.8 green]
     @ map (\<lambda>radius. PutText (to_string (radius * 10))
                        (Point (width div 2 + radius * 20 - 5) (height - 17)) 0.5 green)
           [1, 2, 3, 4, 5]"

definition drawRadar :: "state \<Rightarrow> state" where
  "drawRadar st = st\<lparr>radar := drawRadar_calls, shown := shown st @ [drawRadar_calls]\<rparr>"

subsection \<open>updateRadar\<close>

text \<open>Lines 140 to 142: the new pair goes to the front, the back one leaves past 40.\<close>

definition push_line :: "int \<times> int \<Rightarrow> (int \<times> int) list \<Rightarrow> (int \<times> int) list" where
  "push_line p dq = (let dq1 = p # dq in if length dq1 > 40 then butlast dq1 else dq1)"

text \<open>Line 151: the red channel of a blip, \<open>255 - color_change * 1.4\<close> in doubles.\<close>

definition blip_red :: "int \<Rightarrow> real" where
  "blip_red color_change =
     val (d_sub (d_of_int 255) (d_mul (d_of_int color_change) double_1_4))"

text \<open>Lines 145 to 153: the loop over the deque, \<open>color_change\<close> being its running value.\<close>

fun draw_lines :: "int \<Rightarrow> (int \<times> int) list \<Rightarrow> draw_call list" where
  "draw_lines color_change [] = []"
| "draw_lines color_change (line # rest) =
     (let color_change = color_change + 5 in
        DrawLineAtAngle circle_center (fst line) 100 (0, 200 - real_of_int color_change, 0) False
        # (if snd line < 50 \<and> snd line > 2
           then [Circle (calculate_circle_point (fst line) (snd line * 2)) 3
                   (0, 8, blip_red color_change) (- 1)]
           else [])
        @ draw_lines color_change rest)"

text \<open>Lines 156 to 161: the two texts of the bottom bar.\<close>

definition info_calls :: "int \<Rightarrow> int \<Rightarrow> draw_call list" where
  "info_calls degree distanceCM =
     [PutText (to_string degree) (Point (fst angle_display + 55) (snd angle_display)) 0.8 green,
      (if distanceCM < 50
       then PutText (to_string_cm distanceCM)
              (Point (fst distance_display + 65) (snd distance_display)) 0.8 green
       else PutText (Str ''Nothing'')
              (Point (fst distance_display + 65) (snd distance_display)) 0.8 green)]"

definition updateRadar :: "int \<Rightarrow> int \<Rightarrow> state \<Rightarrow> state" where
  "updateRadar degree distanceCM st =
     (let st1 = drawRadar st;
          dq = push_line (degree, distanceCM) (line_deque st1);
          fr = radar st1 @ draw_lines 0 dq @ info_calls degree distanceCM
      in st1\<lparr>line_deque := dq, radar := fr, shown := shown st1 @ [fr],
              records := records st1 @ [(degree, distanceCM)]\<rparr>)"

subsection \<open>drawLineAtAngle and calculate_circle_point\<close>

text \<open>
  Both functions turn the angle into radians and go from a start point along the cosine
  and against the sine. \<open>cos\<close> and \<open>sin\<close> are the C library's; they are parameters
  \<open>cos_d\<close> and \<open>sin_d\<close> here. Lines 50, 53 and 54 (and 77 to 79 with \<open>circle_center\<close>
  as the start):
\<close>

definition angle_radians :: "int \<Rightarrow> double" where
  "angle_radians angle = d_mul (d_of_int angle) M_PI_180"

definition end_point ::
  "(double \<Rightarrow> double) \<Rightarrow> (double \<Rightarrow> double) \<Rightarrow> int \<times> int \<Rightarrow> int \<Rightarrow> int \<Rightarrow> int \<times> int" where
  "end_point cos_d sin_d start angle len =
     (double_to_int (d_add (d_of_int (fst start))
        (d_mul (cos_d (angle_radians angle)) (d_of_int len))),
      double_to_int (d_sub (d_of_int (snd start))
        (d_mul (sin_d (angle_radians angle)) (d_of_int len))))"

definition fontScale :: real where
  "fontScale = 0.5"

text \<open>Lines 49 to 64: the line, and the angle as text a little past its end.\<close>

definition drawLineAtAngle_calls ::
  "(double \<Rightarrow> double) \<Rightarrow> (double \<Rightarrow> double) \<Rightarrow> int \<times> int \<Rightarrow> int \<Rightarrow> int \<Rightarrow> scalar \<Rightarrow> bool
     \<Rightarrow> draw_call list" where
  "drawLineAtAngle_calls cos_d sin_d start angle len color with_text =
     (let e = end_point cos_d sin_d start angle len;
          t = end_point cos_d sin_d start angle (len + 3);
          end_x = (if angle \<ge> 90 then fst t - 8 else fst t)
      in Line (Point (fst start) (snd start)) (Point (fst e) (snd e)) color
         # (if with_text
            then [PutText (to_string angle) (Point end_x (snd t)) fontScale green]
            else []))"

text \<open>Lines 76 to 81.\<close>

definition calculate_circle_point_at ::
  "(double \<Rightarrow> double) \<Rightarrow> (double \<Rightarrow> double) \<Rightarrow> int \<Rightarrow> int \<Rightarrow> int \<times> int" where
  "calculate_circle_point_at cos_d sin_d angle len =
     end_point cos_d sin_d (width div 2, height - 20) angle len"

text \<open>The OpenCV calls behind the recorded calls of a frame.\<close>

fun resolve_point :: "(double \<Rightarrow> double) \<Rightarrow> (double \<Rightarrow> double) \<Rightarrow> point \<Rightarrow> int \<times> int" where
  "resolve_point cos_d sin_d (Point x y) = (x, y)"
| "resolve_point cos_d sin_d (calculate_circle_point angle len) =
     calculate_circle_point_at cos_d sin_d angle len"

fun resolve_call ::
  "(double \<Rightarrow> double) \<Rightarrow> (double \<Rightarrow> double) \<Rightarrow> draw_call \<Rightarrow> draw_call list" where
  "resolve_call cos_d sin_d (DrawLineAtAngle start angle len color with_text) =
     drawLineAtAngle_calls cos_d sin_d (resolve_point cos_d sin_d start) angle len color
       with_text"
| "resolve_call cos_d sin_d (Circle center radius color thickness) =
     (let c = resolve_point cos_d sin_d center
      in [Circle (Point (fst c) (snd c)) radius color thickness])"
| "resolve_call cos_d sin_d call = [call]"




subsection \<open>The read loop of main\<close>

text \<open>\<open>std::string::find\<close> of one character: the first index holding it, if any.\<close>

fun find_char :: "char \<Rightarrow> string \<Rightarrow> nat option" where
  "find_char c [] = None"
| "find_char c (x # xs) =
     (if x = c then Some 0 else map_option Suc (find_char c xs))"

text \<open>Lines 223 to 240: one message, the frame delimiter already removed.\<close>

definition handle_message :: "string \<Rightarrow> state \<Rightarrow> state" where
  "handle_message message st =
     (case find_char CHR '':'' message of
        Some data_delimiter_pos \<Rightarrow>
          (case stoi (take data_delimiter_pos message) of
             Inl e \<Rightarrow> st\<lparr>terminated := Some e\<rparr>
           | Inr degree \<Rightarrow>
               (case stoi (drop (data_delimiter_pos + 1) message) of
                  Inl e \<Rightarrow> st\<lparr>terminated := Some e\<rparr>
                | Inr distanceCM \<Rightarrow>
                    (let st1 = updateRadar degree distanceCM st in
                     if distanceCM < 50 \<and> distanceCM > 1
                        \<and> arduino_measurements st1 degree = None
                     then st1\<lparr>arduino_measurements :=
                                (arduino_measurements st1)(degree \<mapsto> distanceCM)\<rparr>
                     else st1)))
      | None \<Rightarrow>
          st\<lparr>cerr := cerr st @ [''Invalid message format (breakpoints?): '' @ message]\<rparr>)"

lemma find_char_less: "find_char c s = Some n \<Longrightarrow> n < length s"
  by (induction s arbitrary: n) (auto split: if_splits)

lemma data_updateRadar: "data (updateRadar degree distanceCM st) = data st"
  by (simp add: updateRadar_def drawRadar_def Let_def)

lemma data_handle_message: "data (handle_message message st) = data st"
  by (simp add: handle_message_def data_updateRadar Let_def split: option.splits sum.splits)

text \<open>
  Lines 218 to 241: while the string holds a frame delimiter, cut the message before it
  off and handle it. An exception leaves the loop and the program.
\<close>

function parse_data :: "state \<Rightarrow> state" where
  "parse_data st =
     (case find_char CHR ''|'' (data st) of
        None \<Rightarrow> st
      | Some measurement_delimiter_pos \<Rightarrow>
          (let message = take measurement_delimiter_pos (data st);
               st1 = st\<lparr>data := drop (measurement_delimiter_pos + 1) (data st)\<rparr>;
               st2 = handle_message message st1
           in if terminated st2 \<noteq> None then st2 else parse_data st2))"
  by pat_completeness auto
termination
  by (relation "measure (\<lambda>st. length (data st))")
     (auto simp: data_handle_message dest: find_char_less)

declare parse_data.simps [simp del]

text \<open>
  Lines 210 to 242: one turn of the outer loop, \<open>buffer\<close> being the bytes the read
  returned (none when \<open>bytes_read\<close> is not positive). A terminated program reads nothing.
\<close>

definition read_bytes :: "string \<Rightarrow> state \<Rightarrow> state" where
  "read_bytes buffer st =
     (if terminated st \<noteq> None then st
      else if length buffer > 0 then parse_data (st\<lparr>data := data st @ buffer\<rparr>)
      else st)"

text \<open>
  The state when the outer loop is entered: \<open>drawRadar\<close> has run once and the serial
  port has been opened (a port that does not open makes \<open>main\<close> return 1 before the loop).
  The outer loop never ends by itself; a run is given by the reads it has made so far.
\<close>

definition initial :: state where
  "initial = drawRadar \<lparr>data = [], line_deque = [], arduino_measurements = Map.empty,
     radar = [], shown = [], cerr = [], records = [], terminated = None\<rparr>"

definition main_loop :: "string list \<Rightarrow> state \<Rightarrow> state" where
  "main_loop reads st = fold read_bytes reads st"

subsection \<open>The specification's wording of the trail overlay\<close>






text \<open>The centres of the circles among some drawing calls, in drawing order.\<close>

fun blip_points :: "draw_call list \<Rightarrow> point list" where
  "blip_points [] = []"
| "blip_points (Circle p r c t # calls) = p # blip_points calls"
| "blip_points (call # calls) = blip_points calls"

text \<open>A full deque of forty different entries, the oldest one last.\<close>

definition forty :: "(int \<times> int) list" where
  "forty = map (\<lambda>i. (int i, 7)) [1..<41]"

subsection \<open>What a run shows\<close>

text \<open>
  Two runs are compared by what they did and what they hold. Once an exception has ended
  the program its input string no longer exists, so \<open>data\<close> counts only while the
  program runs.
\<close>

definition outcome ::
  "state \<Rightarrow> (exn + string) \<times> (int \<times> int) list \<times> (int \<rightharpoonup> int) \<times> frame \<times> frame list
     \<times> string list \<times> (int \<times> int) list" where
  "outcome st =
     ((case terminated st of Some e \<Rightarrow> Inl e | None \<Rightarrow> Inr (data st)),
      line_deque st, arduino_measurements st, radar st, shown st, cerr st, records st)"

text \<open>The bytes after the last frame delimiter of a string (all of it when it has none).\<close>

definition residue :: "string \<Rightarrow> string" where
  "residue s = rev (takeWhile (\<lambda>c. c \<noteq> CHR ''|'') (rev s))"

subsection \<open>The wire format\<close>

text \<open>
  The specification's token is \<open>angle:distance|\<close> with both fields decimal integer
  literals. A literal here is a non-empty run of digits whose value fits \<open>int\<close>; a token
  is given by its two literals.
\<close>

definition literal :: "string \<Rightarrow> bool" where
  "literal ds = (ds \<noteq> [] \<and> list_all isdigit ds \<and> decimal ds \<le> INT_MAX)"

definition token :: "string \<times> string \<Rightarrow> string" where
  "token t = fst t @ CHR '':'' # snd t @ [CHR ''|'']"

definition well_formed :: "string \<times> string \<Rightarrow> bool" where
  "well_formed t = (literal (fst t) \<and> literal (snd t))"

definition measurement :: "string \<times> string \<Rightarrow> int \<times> int" where
  "measurement t = (decimal (fst t), decimal (snd t))"

text \<open>
  A field that starts with an integer: an optional sign \<open>sg\<close>, the digits \<open>ds\<close>, and
  a remainder that does not go on with a digit.
\<close>

definition integer_prefix :: "string \<Rightarrow> string \<Rightarrow> string \<Rightarrow> bool" where
  "integer_prefix sg ds rest =
     ((sg = [] \<or> sg = ''+'' \<or> sg = ''-'') \<and> ds \<noteq> [] \<and> list_all isdigit ds
      \<and> (rest = [] \<or> \<not> isdigit (hd rest)))"

definition prefix_value :: "string \<Rightarrow> string \<Rightarrow> int" where
  "prefix_value sg ds = (if sg = ''-'' then - decimal ds else decimal ds)"

section \<open>Properties\<close>

subsection \<open>Unfolding the loop\<close>

lemma parse_data_None:
  "find_char CHR ''|'' (data st) = None \<Longrightarrow> parse_data st = st"
  by (subst parse_data.simps) simp

lemma parse_data_Some:
  "find_char CHR ''|'' (data st) = Some pos \<Longrightarrow>
   parse_data st =
     (let st2 = handle_message (take pos (data st)) (st\<lparr>data := drop (pos + 1) (data st)\<rparr>)
      in if terminated st2 \<noteq> None then st2 else parse_data st2)"
  by (subst parse_data.simps) (simp add: Let_def)

text \<open>The loop either finds no delimiter, or handles a message that throws, or goes on.\<close>

lemma parse_data_cases [case_names stop thrown continue]:
  assumes "\<And>st. find_char CHR ''|'' (data st) = None \<Longrightarrow> P st"
    and "\<And>st pos st2. find_char CHR ''|'' (data st) = Some pos \<Longrightarrow>
           st2 = handle_message (take pos (data st)) (st\<lparr>data := drop (pos + 1) (data st)\<rparr>) \<Longrightarrow>
           terminated st2 \<noteq> None \<Longrightarrow> P st"
    and "\<And>st pos st2. find_char CHR ''|'' (data st) = Some pos \<Longrightarrow>
           st2 = handle_message (take pos (data st)) (st\<lparr>data := drop (pos + 1) (data st)\<rparr>) \<Longrightarrow>
           terminated st2 = None \<Longrightarrow> P st2 \<Longrightarrow> P st"
  shows "P st"
proof (induction st rule: parse_data.induct)
  case (1 st)
  show ?case
  proof (cases "find_char CHR ''|'' (data st)")
    case None
    then show ?thesis by (rule assms(1))
  next
    case (Some pos)
    define st2 where
      "st2 = handle_message (take pos (data st)) (st\<lparr>data := drop (pos + 1) (data st)\<rparr>)"
    show ?thesis
    proof (cases "terminated st2 = None")
      case True
      have "P st2"
        using "1.IH" [OF Some refl refl refl] True by (simp add: st2_def)
      with Some st2_def True show ?thesis by (rule assms(3))
    next
      case False
      with Some st2_def show ?thesis by (rule assms(2))
    qed
  qed
qed

text \<open>Where the first occurrence of a character is.\<close>

lemma find_char_None: "find_char c s = None \<longleftrightarrow> c \<notin> set s"
  by (induction s) auto

lemma find_char_Some:
  "find_char c s = Some n \<Longrightarrow> s = take n s @ c # drop (Suc n) s \<and> c \<notin> set (take n s)"
proof (induction s arbitrary: n)
  case Nil
  then show ?case by simp
next
  case (Cons x xs)
  show ?case
  proof (cases "x = c")
    case True
    with Cons.prems show ?thesis by simp
  next
    case False
    with Cons.prems obtain m where m: "find_char c xs = Some m" "n = Suc m"
      by auto
    from Cons.IH [OF m(1)] False m(2) show ?thesis
      by simp
  qed
qed

lemma find_char_first: "c \<notin> set xs \<Longrightarrow> find_char c (xs @ c # ys) = Some (length xs)"
  by (induction xs) auto

lemma find_char_append: "find_char c xs = Some n \<Longrightarrow> find_char c (xs @ ys) = Some n"
  by (induction xs arbitrary: n) (auto split: if_splits)

lemma handle_message_parsed:
  assumes "find_char CHR '':'' message = Some p"
    and "stoi (take p message) = Inr degree"
    and "stoi (drop (p + 1) message) = Inr distanceCM"
  shows "handle_message message st =
    (let st1 = updateRadar degree distanceCM st in
     if distanceCM < 50 \<and> distanceCM > 1 \<and> arduino_measurements st1 degree = None
     then st1\<lparr>arduino_measurements := (arduino_measurements st1)(degree \<mapsto> distanceCM)\<rparr>
     else st1)"
  using assms by (simp add: handle_message_def)

subsection \<open>The trail deque\<close>

lemma length_push_line: "length dq \<le> 40 \<Longrightarrow> length (push_line p dq) \<le> 40"
  by (simp add: push_line_def Let_def)

lemma push_line_eq: "push_line p dq = p # (if length dq < 40 then dq else butlast dq)"
  by (cases dq) (simp_all add: push_line_def Let_def)

lemma line_deque_updateRadar:
  "line_deque (updateRadar degree distanceCM st) = push_line (degree, distanceCM) (line_deque st)"
  by (simp add: updateRadar_def drawRadar_def Let_def)

lemma line_deque_handle_message:
  "length (line_deque st) \<le> 40 \<Longrightarrow> length (line_deque (handle_message message st)) \<le> 40"
  by (auto simp: handle_message_def Let_def line_deque_updateRadar length_push_line
      split: option.splits sum.splits)

lemma line_deque_parse_data:
  "length (line_deque st) \<le> 40 \<Longrightarrow> length (line_deque (parse_data st)) \<le> 40"
proof (induction st rule: parse_data_cases)
  case (stop st)
  then show ?case by (simp add: parse_data_None)
next
  case (thrown st pos st2)
  then show ?case by (simp add: parse_data_Some line_deque_handle_message)
next
  case (continue st pos st2)
  then show ?case by (simp add: parse_data_Some line_deque_handle_message)
qed

lemma line_deque_read_bytes:
  "length (line_deque st) \<le> 40 \<Longrightarrow> length (line_deque (read_bytes buffer st)) \<le> 40"
  by (simp add: read_bytes_def line_deque_parse_data)

lemma line_deque_main_loop:
  "length (line_deque st) \<le> 40 \<Longrightarrow> length (line_deque (main_loop reads st)) \<le> 40"
  unfolding main_loop_def
  by (induction reads arbitrary: st) (simp_all add: line_deque_read_bytes)

text \<open>
  C3. Whatever the reads, the deque of the running program never holds more than 40
  entries. A call of \<open>updateRadar\<close> puts the new pair at the front; below 40 entries
  nothing leaves, and at 40 entries exactly the back entry leaves.
\<close>

theorem trail_capacity:
  "length (line_deque (main_loop reads initial)) \<le> 40
   \<and> (length (line_deque st) < 40 \<longrightarrow>
        line_deque (updateRadar degree distanceCM st) = (degree, distanceCM) # line_deque st)
   \<and> (length (line_deque st) = 40 \<longrightarrow>
        line_deque (updateRadar degree distanceCM st)
          = (degree, distanceCM) # butlast (line_deque st))"
proof -
  have "length (line_deque initial) \<le> 40"
    by (simp add: initial_def drawRadar_def)
  then have "length (line_deque (main_loop reads initial)) \<le> 40"
    by (rule line_deque_main_loop)
  then show ?thesis
    by (simp add: line_deque_updateRadar push_line_eq)
qed

theorem trail_capacity_witness:
  "length (line_deque (main_loop [''30:20|90:5|''] initial)) \<le> 40
   \<and> line_deque (updateRadar 90 5 (initial\<lparr>line_deque := [(30, 20)]\<rparr>)) = [(90, 5), (30, 20)]
   \<and> length (line_deque (initial\<lparr>line_deque := forty\<rparr>)) = 40
   \<and> line_deque (updateRadar 41 9 (initial\<lparr>line_deque := forty\<rparr>)) = (41, 9) # butlast forty
   \<and> last forty = (40, 7) \<and> last (butlast forty) = (39, 7)"
  using trail_capacity [of "[''30:20|90:5|'']" "initial\<lparr>line_deque := [(30, 20)]\<rparr>" 90 5]
    trail_capacity [of "[]" "initial\<lparr>line_deque := forty\<rparr>" 41 9]
  by (simp add: forty_def upt_rec)

subsection \<open>The measurement map\<close>

lemma arduino_measurements_updateRadar:
  "arduino_measurements (updateRadar degree distanceCM st) = arduino_measurements st"
  by (simp add: updateRadar_def drawRadar_def Let_def)

lemma table_kept_handle_message:
  "arduino_measurements st k = Some v \<Longrightarrow> arduino_measurements (handle_message message st) k = Some v"
  by (auto simp: handle_message_def Let_def arduino_measurements_updateRadar
      split: option.splits sum.splits)

lemma table_kept_parse_data:
  "arduino_measurements st k = Some v \<Longrightarrow> arduino_measurements (parse_data st) k = Some v"
proof (induction st rule: parse_data_cases)
  case (stop st)
  then show ?case by (simp add: parse_data_None)
next
  case (thrown st pos st2)
  then show ?case by (simp add: parse_data_Some table_kept_handle_message)
next
  case (continue st pos st2)
  then show ?case by (simp add: parse_data_Some table_kept_handle_message)
qed

lemma table_kept_read_bytes:
  "arduino_measurements st k = Some v \<Longrightarrow> arduino_measurements (read_bytes buffer st) k = Some v"
  by (simp add: read_bytes_def table_kept_parse_data)

lemma table_kept_main_loop:
  "arduino_measurements st k = Some v \<Longrightarrow> arduino_measurements (main_loop reads st) k = Some v"
  unfolding main_loop_def
  by (induction reads arbitrary: st) (simp_all add: table_kept_read_bytes)

text \<open>
  C4. An angle that has a distance in the map keeps that distance through every later
  read. A message that parses to \<open>(degree, distanceCM)\<close> adds the pair exactly when
  \<open>1 < distanceCM < 50\<close> and the angle has no entry yet, and otherwise leaves the map
  as it was.
\<close>

theorem first_write_wins:
  "(arduino_measurements st k = Some v \<longrightarrow> arduino_measurements (main_loop reads st) k = Some v)
   \<and> (find_char CHR '':'' message = Some p \<and> stoi (take p message) = Inr degree
        \<and> stoi (drop (p + 1) message) = Inr distanceCM \<longrightarrow>
      arduino_measurements (handle_message message st)
        = (if 1 < distanceCM \<and> distanceCM < 50 \<and> arduino_measurements st degree = None
           then (arduino_measurements st)(degree \<mapsto> distanceCM)
           else arduino_measurements st))"
  by (auto simp: table_kept_main_loop handle_message_parsed Let_def arduino_measurements_updateRadar)

theorem first_write_wins_witness:
  "arduino_measurements (main_loop [''30:20|''] initial) 30 = Some 20
   \<and> arduino_measurements (main_loop [''30:25|9'', ''0:1|''] (main_loop [''30:20|''] initial)) 30 = Some 20
   \<and> find_char CHR '':'' ''90:1'' = Some 2 \<and> stoi (take 2 ''90:1'') = Inr 90
   \<and> stoi (drop (2 + 1) ''90:1'') = Inr 1
   \<and> arduino_measurements (handle_message ''90:1'' initial) = arduino_measurements initial
   \<and> find_char CHR '':'' ''90:50'' = Some 2 \<and> stoi (take 2 ''90:50'') = Inr 90
   \<and> stoi (drop (2 + 1) ''90:50'') = Inr 50
   \<and> arduino_measurements (handle_message ''90:50'' initial) = arduino_measurements initial
   \<and> find_char CHR '':'' ''90:2'' = Some 2 \<and> stoi (take 2 ''90:2'') = Inr 90
   \<and> stoi (drop (2 + 1) ''90:2'') = Inr 2 \<and> arduino_measurements initial 90 = None
   \<and> arduino_measurements (handle_message ''90:2'' initial) = (arduino_measurements initial)(90 \<mapsto> 2)"
proof -
  have t: "arduino_measurements (main_loop [''30:20|''] initial) 30 = Some 20"
    by code_simp
  have p1: "find_char CHR '':'' ''90:1'' = Some 2 \<and> stoi (take 2 ''90:1'') = Inr 90
      \<and> stoi (drop (2 + 1) ''90:1'') = Inr 1"
    by code_simp
  have p50: "find_char CHR '':'' ''90:50'' = Some 2 \<and> stoi (take 2 ''90:50'') = Inr 90
      \<and> stoi (drop (2 + 1) ''90:50'') = Inr 50"
    by code_simp
  have p2: "find_char CHR '':'' ''90:2'' = Some 2 \<and> stoi (take 2 ''90:2'') = Inr 90
      \<and> stoi (drop (2 + 1) ''90:2'') = Inr 2"
    by code_simp
  have e: "arduino_measurements initial 90 = None"
    by (simp add: initial_def drawRadar_def)
  show ?thesis
    using t p1 p50 p2 e
      first_write_wins [of "main_loop [''30:20|''] initial" 30 20 "[''30:25|9'', ''0:1|'']"]
      first_write_wins [of initial 0 0 "[]" "''90:1''" 2 90 1]
      first_write_wins [of initial 0 0 "[]" "''90:50''" 2 90 50]
      first_write_wins [of initial 0 0 "[]" "''90:2''" 2 90 2]
    by simp
qed

subsection \<open>The trail overlay\<close>








text \<open>
  C6. The circles the loop draws are those of the entries whose distance \<open>d\<close> has
  \<open>2 < d < 50\<close>, in deque order, each centred at \<open>calculate_circle_point\<close> of the
  entry's angle and the length \<open>2 * d\<close>.
\<close>

theorem blip_band:
  "blip_points (draw_lines color_change dq)
     = map (\<lambda>(a, d). calculate_circle_point a (2 * d)) (filter (\<lambda>(a, d). 2 < d \<and> d < 50) dq)"
  by (induction dq arbitrary: color_change) (auto simp: Let_def mult.commute)

theorem blip_band_witness:
  "blip_points (draw_lines 0 [(10, 1), (20, 2), (30, 49), (40, 50)]) = [calculate_circle_point 30 98]"
  unfolding blip_band by simp

subsection \<open>Reading digits\<close>

lemma isdigit_chars:
  "isdigit c \<Longrightarrow> \<not> isspace c \<and> c \<noteq> CHR ''-'' \<and> c \<noteq> CHR ''+'' \<and> c \<noteq> CHR '':'' \<and> c \<noteq> CHR ''|''"
  by (auto simp: isdigit_def isspace_def)

lemma digit_value_nonneg: "isdigit c \<Longrightarrow> 0 \<le> digit_value c"
  by (simp add: isdigit_def digit_value_def)

lemma foldl_decimal_nonneg:
  "list_all isdigit ds \<Longrightarrow> 0 \<le> acc \<Longrightarrow> 0 \<le> foldl (\<lambda>acc c. 10 * acc + digit_value c) acc ds"
  by (induction ds arbitrary: acc) (simp_all add: digit_value_nonneg)

lemma decimal_nonneg: "list_all isdigit ds \<Longrightarrow> 0 \<le> decimal ds"
  by (simp add: decimal_def foldl_decimal_nonneg)

lemma takeWhile_digits:
  "list_all isdigit ds \<Longrightarrow> rest = [] \<or> \<not> isdigit (hd rest) \<Longrightarrow> takeWhile isdigit (ds @ rest) = ds"
  by (induction ds) (auto simp: neq_Nil_conv takeWhile_eq_Nil_iff)

lemma dropWhile_isspace_digits:
  "ds \<noteq> [] \<Longrightarrow> list_all isdigit ds \<Longrightarrow> dropWhile isspace (ds @ rest) = ds @ rest"
  by (cases ds) (simp_all add: isdigit_chars)

lemma strip_sign_digits:
  "ds \<noteq> [] \<Longrightarrow> list_all isdigit ds \<Longrightarrow> strip_sign (ds @ rest) = (False, ds @ rest)"
  by (cases ds) (simp_all add: strip_sign_def isdigit_chars)

lemma stoi_prefix:
  assumes "ds \<noteq> []" and "list_all isdigit ds" and "rest = [] \<or> \<not> isdigit (hd rest)"
    and "decimal ds \<le> INT_MAX"
  shows "stoi (ds @ rest) = Inr (decimal ds)"
proof -
  have "INT_MIN \<le> decimal ds"
    using decimal_nonneg [OF assms(2)] by (simp add: INT_MIN_def)
  then show ?thesis
    using assms
    by (simp add: stoi_def dropWhile_isspace_digits strip_sign_digits takeWhile_digits)
qed

lemma stoi_minus_prefix:
  assumes "ds \<noteq> []" and "list_all isdigit ds" and "rest = [] \<or> \<not> isdigit (hd rest)"
    and "INT_MIN \<le> - decimal ds"
  shows "stoi (CHR ''-'' # ds @ rest) = Inr (- decimal ds)"
proof -
  have "- decimal ds \<le> INT_MAX"
    using decimal_nonneg [OF assms(2)] by (simp add: INT_MAX_def)
  moreover have "\<not> isspace CHR ''-''"
    by (simp add: isspace_def)
  ultimately show ?thesis
    using assms
    by (simp add: stoi_def strip_sign_def takeWhile_digits)
qed

lemma stoi_plus_prefix:
  assumes "ds \<noteq> []" and "list_all isdigit ds" and "rest = [] \<or> \<not> isdigit (hd rest)"
    and "decimal ds \<le> INT_MAX"
  shows "stoi (CHR ''+'' # ds @ rest) = Inr (decimal ds)"
proof -
  have "INT_MIN \<le> decimal ds"
    using decimal_nonneg [OF assms(2)] by (simp add: INT_MIN_def)
  moreover have "\<not> isspace CHR ''+''"
    by (simp add: isspace_def)
  ultimately show ?thesis
    using assms
    by (simp add: stoi_def strip_sign_def takeWhile_digits)
qed

lemma stoi_integer_prefix:
  assumes "integer_prefix sg ds rest"
    and "INT_MIN \<le> prefix_value sg ds" and "prefix_value sg ds \<le> INT_MAX"
  shows "stoi (sg @ ds @ rest) = Inr (prefix_value sg ds)"
proof -
  from assms(1) have ds: "ds \<noteq> []" "list_all isdigit ds" "rest = [] \<or> \<not> isdigit (hd rest)"
    and sg: "sg = [] \<or> sg = ''+'' \<or> sg = ''-''"
    by (simp_all add: integer_prefix_def)
  from sg consider "sg = []" | "sg = ''+''" | "sg = ''-''" by blast
  then show ?thesis
  proof cases
    case 1
    with assms(3) stoi_prefix [OF ds] show ?thesis by (simp add: prefix_value_def)
  next
    case 2
    with assms(3) stoi_plus_prefix [OF ds] show ?thesis by (simp add: prefix_value_def)
  next
    case 3
    with assms(2) stoi_minus_prefix [OF ds] show ?thesis by (simp add: prefix_value_def)
  qed
qed

subsection \<open>Accepted and rejected messages\<close>

lemma handle_message_accept:
  assumes "find_char CHR '':'' message = Some p"
    and "stoi (take p message) = Inr degree"
    and "stoi (drop (p + 1) message) = Inr distanceCM"
  shows "records (handle_message message st) = records st @ [(degree, distanceCM)]"
    and "terminated (handle_message message st) = terminated st"
    and "cerr (handle_message message st) = cerr st"
    and "line_deque (handle_message message st) = push_line (degree, distanceCM) (line_deque st)"
    and "radar (handle_message message st)
           = drawRadar_calls @ draw_lines 0 (push_line (degree, distanceCM) (line_deque st))
             @ info_calls degree distanceCM"
    and "shown (handle_message message st)
           = shown st @ [drawRadar_calls, radar (handle_message message st)]"
  by (simp_all add: handle_message_parsed [OF assms] updateRadar_def drawRadar_def Let_def)

lemma handle_message_fields:
  assumes "CHR '':'' \<notin> set f1" and "stoi f1 = Inr degree" and "stoi f2 = Inr distanceCM"
  shows "find_char CHR '':'' (f1 @ CHR '':'' # f2) = Some (length f1)"
    and "stoi (take (length f1) (f1 @ CHR '':'' # f2)) = Inr degree"
    and "stoi (drop (length f1 + 1) (f1 @ CHR '':'' # f2)) = Inr distanceCM"
  using assms by (simp_all add: find_char_first)

text \<open>
  C10. A message whose two fields convert is pushed and drawn whatever the values are:
  the pair \<open>(degree, distanceCM)\<close> goes to the front of the deque, the frame shown is
  the template, the trail with that deque and the info texts, and the first trail call
  is the line at \<open>degree\<close> with length 100 and green 195. No bound on \<open>degree\<close> or
  \<open>distanceCM\<close> is assumed.
\<close>

theorem no_range_validation:
  assumes "find_char CHR '':'' message = Some p"
    and "stoi (take p message) = Inr degree"
    and "stoi (drop (p + 1) message) = Inr distanceCM"
  shows "line_deque (handle_message message st)
           = (degree, distanceCM)
             # (if length (line_deque st) < 40 then line_deque st else butlast (line_deque st))
         \<and> radar (handle_message message st)
           = drawRadar_calls @ draw_lines 0 (line_deque (handle_message message st))
             @ info_calls degree distanceCM
         \<and> take 1 (draw_lines 0 (line_deque (handle_message message st)))
           = [DrawLineAtAngle circle_center degree 100 (0, 195, 0) False]
         \<and> shown (handle_message message st)
           = shown st @ [drawRadar_calls, radar (handle_message message st)]
         \<and> terminated (handle_message message st) = terminated st
         \<and> cerr (handle_message message st) = cerr st"
  by (simp add: handle_message_accept [OF assms] push_line_eq Let_def)

theorem no_range_validation_witness:
  "find_char CHR '':'' ''200:-5'' = Some 3 \<and> stoi (take 3 ''200:-5'') = Inr 200
   \<and> stoi (drop (3 + 1) ''200:-5'') = Inr (- 5)
   \<and> line_deque (handle_message ''200:-5'' (initial\<lparr>line_deque := [(30, 20)]\<rparr>))
       = [(200, - 5), (30, 20)]
   \<and> take 1 (draw_lines 0 (line_deque (handle_message ''200:-5'' (initial\<lparr>line_deque := [(30, 20)]\<rparr>))))
       = [DrawLineAtAngle circle_center 200 100 (0, 195, 0) False]
   \<and> terminated (handle_message ''200:-5'' (initial\<lparr>line_deque := [(30, 20)]\<rparr>)) = None
   \<and> find_char CHR '':'' ''0:0'' = Some 1 \<and> stoi (take 1 ''0:0'') = Inr 0
   \<and> stoi (drop (1 + 1) ''0:0'') = Inr 0
   \<and> line_deque (handle_message ''0:0'' initial) = [(0, 0)]
   \<and> take 1 (draw_lines 0 (line_deque (handle_message ''0:0'' initial)))
       = [DrawLineAtAngle circle_center 0 100 (0, 195, 0) False]"
proof -
  have a: "find_char CHR '':'' ''200:-5'' = Some 3" "stoi (take 3 ''200:-5'') = Inr 200"
    "stoi (drop (3 + 1) ''200:-5'') = Inr (- 5)"
    by code_simp+
  have b: "find_char CHR '':'' ''0:0'' = Some 1" "stoi (take 1 ''0:0'') = Inr 0"
    "stoi (drop (1 + 1) ''0:0'') = Inr 0"
    by code_simp+
  have i: "line_deque initial = []" "terminated initial = None"
    by (simp_all add: initial_def drawRadar_def)
  from no_range_validation [OF a, of "initial\<lparr>line_deque := [(30, 20)]\<rparr>"]
    no_range_validation [OF b, of initial] a b i
  show ?thesis
    by simp
qed

text \<open>
  C7. A message without the field delimiter only adds the line
  \<open>Invalid message format (breakpoints?): \<close> and the message to the error stream;
  deque, map, frames and records stay as they were. The loop has removed the message and
  its frame delimiter and goes on with the bytes after it.
\<close>

theorem missing_field_delimiter:
  assumes "CHR '':'' \<notin> set message" and "CHR ''|'' \<notin> set message" and "terminated st = None"
  shows "handle_message message st
           = st\<lparr>cerr := cerr st @ [''Invalid message format (breakpoints?): '' @ message]\<rparr>
         \<and> parse_data (st\<lparr>data := message @ CHR ''|'' # rest\<rparr>)
           = parse_data (st\<lparr>data := rest,
               cerr := cerr st @ [''Invalid message format (breakpoints?): '' @ message]\<rparr>)"
proof -
  have none: "find_char CHR '':'' message = None"
    using assms(1) by (simp add: find_char_None)
  then have h: "handle_message message s
      = s\<lparr>cerr := cerr s @ [''Invalid message format (breakpoints?): '' @ message]\<rparr>" for s
    by (simp add: handle_message_def)
  have "find_char CHR ''|'' (data (st\<lparr>data := message @ CHR ''|'' # rest\<rparr>)) = Some (length message)"
    using assms(2) by (simp add: find_char_first)
  from parse_data_Some [OF this] assms(3) h show ?thesis
    by simp
qed

theorem missing_field_delimiter_witness:
  "CHR '':'' \<notin> set ''3020'' \<and> CHR ''|'' \<notin> set ''3020'' \<and> terminated initial = None
   \<and> records (handle_message ''3020'' initial) = []
   \<and> cerr (handle_message ''3020'' initial) = [''Invalid message format (breakpoints?): 3020'']
   \<and> records (parse_data (initial\<lparr>data := ''3020|45:10|''\<rparr>)) = [(45, 10)]
   \<and> cerr (parse_data (initial\<lparr>data := ''3020|45:10|''\<rparr>))
       = [''Invalid message format (breakpoints?): 3020'']"
proof -
  have a: "CHR '':'' \<notin> set ''3020''" and b: "CHR ''|'' \<notin> set ''3020''"
    by simp_all
  have t: "terminated initial = None" and r: "records initial = []" and e: "cerr initial = []"
    by (simp_all add: initial_def drawRadar_def)
  have n: "records (parse_data (initial\<lparr>data := ''45:10|'',
        cerr := cerr initial @ [''Invalid message format (breakpoints?): '' @ ''3020'']\<rparr>)) = [(45, 10)]
    \<and> cerr (parse_data (initial\<lparr>data := ''45:10|'',
        cerr := cerr initial @ [''Invalid message format (breakpoints?): '' @ ''3020'']\<rparr>))
       = [''Invalid message format (breakpoints?): 3020'']"
    by code_simp
  from missing_field_delimiter [OF a b t, of "''45:10|''"] a b t r e n show ?thesis
    by simp
qed

text \<open>
  C2. On the bytes \<open>30:20|90:5|200:abc|45:10|\<close> the first two messages are handled,
  then \<open>std::stoi\<close> throws \<open>std::invalid_argument\<close> on \<open>abc\<close> and the program ends: it
  writes no line to the error stream and never reaches \<open>45:10\<close>, whether those bytes
  come in the same read or in a later one.
\<close>

theorem non_numeric_field_terminates:
  "terminated (main_loop [''30:20|90:5|200:abc|45:10|''] initial) = Some invalid_argument
   \<and> records (main_loop [''30:20|90:5|200:abc|45:10|''] initial) = [(30, 20), (90, 5)]
   \<and> cerr (main_loop [''30:20|90:5|200:abc|45:10|''] initial) = []
   \<and> records (main_loop [''30:20|90:5|200:abc|'', ''45:10|''] initial) = [(30, 20), (90, 5)]"
  by code_simp

text \<open>
  C9, as stated, fails when the integer at the start of a field does not fit \<open>int\<close>: on
  \<open>1:99999999999abc|\<close> the conversion throws \<open>std::out_of_range\<close>, the program ends
  and no record is made.
\<close>

theorem prefix_out_of_range_counterexample:
  "integer_prefix [] ''99999999999'' ''abc''
   \<and> terminated (main_loop [''1:99999999999abc|''] initial) = Some out_of_range
   \<and> records (main_loop [''1:99999999999abc|''] initial) = []"
  by code_simp

text \<open>
  C9, amended. When both fields start with an integer whose value lies in the range of
  \<open>int\<close>, whatever follows the digits is ignored: the message is accepted with the two
  values as its record, nothing is written to the error stream and no exception is
  thrown.
\<close>

theorem integer_prefix_accepted:
  assumes "integer_prefix sg1 ds1 rest1" and "CHR '':'' \<notin> set rest1"
    and "INT_MIN \<le> prefix_value sg1 ds1" and "prefix_value sg1 ds1 \<le> INT_MAX"
    and "integer_prefix sg2 ds2 rest2"
    and "INT_MIN \<le> prefix_value sg2 ds2" and "prefix_value sg2 ds2 \<le> INT_MAX"
  shows "records (handle_message ((sg1 @ ds1 @ rest1) @ CHR '':'' # sg2 @ ds2 @ rest2) st)
           = records st @ [(prefix_value sg1 ds1, prefix_value sg2 ds2)]
         \<and> cerr (handle_message ((sg1 @ ds1 @ rest1) @ CHR '':'' # sg2 @ ds2 @ rest2) st) = cerr st
         \<and> terminated (handle_message ((sg1 @ ds1 @ rest1) @ CHR '':'' # sg2 @ ds2 @ rest2) st)
           = terminated st"
proof -
  have "CHR '':'' \<notin> set sg1"
    using assms(1) by (auto simp: integer_prefix_def)
  moreover have "CHR '':'' \<notin> set ds1"
    using assms(1) isdigit_chars by (auto simp: integer_prefix_def list_all_iff)
  ultimately have colon: "CHR '':'' \<notin> set (sg1 @ ds1 @ rest1)"
    using assms(2) by simp
  note f = handle_message_fields [OF colon stoi_integer_prefix [OF assms(1,3,4)]
      stoi_integer_prefix [OF assms(5,6,7)]]
  from handle_message_accept(1,2,3) [OF f] show ?thesis
    by simp
qed

theorem integer_prefix_accepted_witness:
  "integer_prefix [] ''30'' ''deg'' \<and> CHR '':'' \<notin> set ''deg''
   \<and> INT_MIN \<le> prefix_value [] ''30'' \<and> prefix_value [] ''30'' \<le> INT_MAX
   \<and> integer_prefix ''-'' ''20'' ''abc''
   \<and> INT_MIN \<le> prefix_value ''-'' ''20'' \<and> prefix_value ''-'' ''20'' \<le> INT_MAX
   \<and> records (handle_message ''30deg:-20abc'' initial) = [(30, - 20)]
   \<and> cerr (handle_message ''30deg:-20abc'' initial) = []
   \<and> terminated (handle_message ''30deg:-20abc'' initial) = None"
proof -
  have p1: "integer_prefix [] ''30'' ''deg''" and p2: "integer_prefix ''-'' ''20'' ''abc''"
    by (simp_all add: integer_prefix_def isdigit_def)
  have c: "CHR '':'' \<notin> set ''deg''"
    by simp
  have v1: "prefix_value [] ''30'' = 30" and v2: "prefix_value ''-'' ''20'' = - 20"
    by (simp_all add: prefix_value_def decimal_def digit_value_def)
  have b1: "INT_MIN \<le> prefix_value [] ''30''" "prefix_value [] ''30'' \<le> INT_MAX"
    and b2: "INT_MIN \<le> prefix_value ''-'' ''20''" "prefix_value ''-'' ''20'' \<le> INT_MAX"
    by (simp_all add: v1 v2 INT_MIN_def INT_MAX_def)
  have i: "records initial = []" "cerr initial = []" "terminated initial = None"
    by (simp_all add: initial_def drawRadar_def)
  from integer_prefix_accepted [OF p1 c b1 p2 b2, of initial] p1 p2 c b1 b2 v1 v2 i
  show ?thesis
    by simp
qed

subsection \<open>Reads in pieces\<close>

lemma updateRadar_data_update:
  "updateRadar degree distanceCM (st\<lparr>data := x\<rparr>) = (updateRadar degree distanceCM st)\<lparr>data := x\<rparr>"
  by (simp add: updateRadar_def drawRadar_def Let_def)

lemma handle_message_data_update:
  "handle_message message (st\<lparr>data := x\<rparr>) = (handle_message message st)\<lparr>data := x\<rparr>"
  by (simp add: handle_message_def updateRadar_data_update Let_def split: option.splits sum.splits)

lemma parse_data_append:
  "terminated st = None \<Longrightarrow>
   parse_data (st\<lparr>data := data st @ b\<rparr>) =
     (if terminated (parse_data st) \<noteq> None
      then (parse_data st)\<lparr>data := data (parse_data st) @ b\<rparr>
      else parse_data ((parse_data st)\<lparr>data := data (parse_data st) @ b\<rparr>))"
proof (induction st rule: parse_data_cases)
  case (stop st)
  then show ?case by (simp add: parse_data_None)
next
  case (thrown st pos st2)
  have pos: "pos < length (data st)"
    using thrown(1) by (rule find_char_less)
  have found: "find_char CHR ''|'' (data (st\<lparr>data := data st @ b\<rparr>)) = Some pos"
    using thrown(1) by (simp add: find_char_append)
  have st2: "handle_message (take pos (data st @ b)) (st\<lparr>data := drop (pos + 1) (data st) @ b\<rparr>)
      = st2\<lparr>data := data st2 @ b\<rparr>"
    using pos by (simp add: thrown(2) handle_message_data_update data_handle_message)
  have "parse_data st = st2"
    using thrown by (simp add: parse_data_Some)
  moreover have "parse_data (st\<lparr>data := data st @ b\<rparr>) = st2\<lparr>data := data st2 @ b\<rparr>"
    using pos thrown(3) st2 by (simp add: parse_data_Some [OF found])
  ultimately show ?case using thrown(3) by simp
next
  case (continue st pos st2)
  have pos: "pos < length (data st)"
    using continue(1) by (rule find_char_less)
  have found: "find_char CHR ''|'' (data (st\<lparr>data := data st @ b\<rparr>)) = Some pos"
    using continue(1) by (simp add: find_char_append)
  have st2: "handle_message (take pos (data st @ b)) (st\<lparr>data := drop (pos + 1) (data st) @ b\<rparr>)
      = st2\<lparr>data := data st2 @ b\<rparr>"
    using pos by (simp add: continue(2) handle_message_data_update data_handle_message)
  have "parse_data st = parse_data st2"
    using continue(1,2,3) by (simp add: parse_data_Some)
  moreover have "parse_data (st\<lparr>data := data st @ b\<rparr>) = parse_data (st2\<lparr>data := data st2 @ b\<rparr>)"
    using pos continue(3) st2 by (simp add: parse_data_Some [OF found])
  ultimately show ?case using continue(3,4) by simp
qed

lemma read_bytes_append:
  "outcome (read_bytes y (read_bytes x st)) = outcome (read_bytes (x @ y) st)"
proof (cases "terminated st = None \<and> x \<noteq> [] \<and> y \<noteq> []")
  case False
  then show ?thesis by (auto simp: read_bytes_def)
next
  case True
  define s where "s = st\<lparr>data := data st @ x\<rparr>"
  have s: "terminated s = None" "st\<lparr>data := data st @ x @ y\<rparr> = s\<lparr>data := data s @ y\<rparr>"
    using True by (simp_all add: s_def)
  have whole: "read_bytes (x @ y) st = parse_data (s\<lparr>data := data s @ y\<rparr>)"
    using True s(2) by (simp add: read_bytes_def)
  have first: "read_bytes x st = parse_data s"
    using True by (simp add: read_bytes_def s_def)
  show ?thesis
  proof (cases "terminated (parse_data s) = None")
    case running: True
    have "read_bytes y (parse_data s) = parse_data ((parse_data s)\<lparr>data := data (parse_data s) @ y\<rparr>)"
      using running True by (simp add: read_bytes_def)
    also have "\<dots> = parse_data (s\<lparr>data := data s @ y\<rparr>)"
      using running by (simp add: parse_data_append [OF s(1)])
    finally show ?thesis
      by (simp only: whole first)
  next
    case False
    have "read_bytes y (parse_data s) = parse_data s"
      using False by (simp add: read_bytes_def)
    moreover have "parse_data (s\<lparr>data := data s @ y\<rparr>)
        = (parse_data s)\<lparr>data := data (parse_data s) @ y\<rparr>"
      using False by (simp add: parse_data_append [OF s(1)])
    ultimately show ?thesis
      using False by (auto simp: whole first outcome_def)
  qed
qed

lemma main_loop_Cons: "main_loop (c # cs) st = main_loop cs (read_bytes c st)"
  by (simp add: main_loop_def)

lemma main_loop_whole: "outcome (main_loop chunks st) = outcome (read_bytes (concat chunks) st)"
proof (induction chunks arbitrary: st)
  case Nil
  show ?case by (simp add: main_loop_def read_bytes_def)
next
  case (Cons c cs)
  have "outcome (main_loop (c # cs) st) = outcome (read_bytes (concat cs) (read_bytes c st))"
    by (simp add: main_loop_Cons Cons.IH)
  also have "\<dots> = outcome (read_bytes (c @ concat cs) st)"
    by (rule read_bytes_append)
  finally show ?case by simp
qed

lemma takeWhile_upto: "c \<notin> set s \<Longrightarrow> takeWhile (\<lambda>x. x \<noteq> c) (s @ c # t) = s"
  by (induction s) auto

lemma takeWhile_within:
  "c \<in> set s \<Longrightarrow> takeWhile (\<lambda>x. x \<noteq> c) (s @ t) = takeWhile (\<lambda>x. x \<noteq> c) s"
  by (induction s) auto

lemma takeWhile_absent: "c \<notin> set s \<Longrightarrow> takeWhile (\<lambda>x. x \<noteq> c) s = s"
  by (induction s) auto

lemma residue_cut: "residue (xs @ CHR ''|'' # ys) = residue ys"
proof (cases "CHR ''|'' \<in> set ys")
  case True
  then show ?thesis by (simp add: residue_def takeWhile_within)
next
  case False
  then show ?thesis by (simp add: residue_def takeWhile_upto takeWhile_absent)
qed

lemma residue_none: "CHR ''|'' \<notin> set s \<Longrightarrow> residue s = s"
  by (simp add: residue_def takeWhile_absent)

lemma data_parse_data:
  "terminated (parse_data st) = None \<Longrightarrow> data (parse_data st) = residue (data st)"
proof (induction st rule: parse_data_cases)
  case (stop st)
  then show ?case by (simp add: parse_data_None residue_none find_char_None)
next
  case (thrown st pos st2)
  then show ?case by (simp add: parse_data_Some)
next
  case (continue st pos st2)
  from find_char_Some [OF continue(1)]
  have "residue (data st) = residue (drop (Suc pos) (data st))"
    by (metis residue_cut)
  then show ?case
    using continue by (simp add: parse_data_Some data_handle_message)
qed

lemma literal_no_delimiter: "literal ds \<Longrightarrow> CHR '':'' \<notin> set ds \<and> CHR ''|'' \<notin> set ds"
  using isdigit_chars by (auto simp: literal_def list_all_iff)

lemma stoi_literal: "literal ds \<Longrightarrow> stoi ds = Inr (decimal ds)"
  using stoi_prefix [of ds "[]"] by (simp add: literal_def)

lemma parse_tokens:
  "terminated st = None \<Longrightarrow> list_all well_formed tokens \<Longrightarrow> data st = concat (map token tokens) \<Longrightarrow>
   terminated (parse_data st) = None \<and> records (parse_data st) = records st @ map measurement tokens"
proof (induction tokens arbitrary: st)
  case Nil
  then show ?case by (simp add: parse_data_None)
next
  case (Cons t ts)
  define message where "message = fst t @ CHR '':'' # snd t"
  define st2 where "st2 = handle_message message (st\<lparr>data := concat (map token ts)\<rparr>)"
  from Cons.prems(2) have lit: "literal (fst t)" "literal (snd t)"
    by (simp_all add: well_formed_def)
  have bar: "CHR ''|'' \<notin> set message"
    using literal_no_delimiter [OF lit(1)] literal_no_delimiter [OF lit(2)]
    by (simp add: message_def)
  have "token t = message @ [CHR ''|'']"
    by (simp add: token_def message_def)
  with Cons.prems(3) have d: "data st = message @ CHR ''|'' # concat (map token ts)"
    by simp
  have found: "find_char CHR ''|'' (data st) = Some (length message)"
    by (simp add: d find_char_first [OF bar])
  note f = handle_message_fields [OF conjunct1 [OF literal_no_delimiter [OF lit(1)]]
      stoi_literal [OF lit(1)] stoi_literal [OF lit(2)]]
  note acc = handle_message_accept [OF f, folded message_def]
  have t2: "terminated st2 = None"
    using Cons.prems(1) by (simp add: st2_def acc)
  have r2: "records st2 = records st @ [measurement t]"
    by (simp add: st2_def acc measurement_def)
  have d2: "data st2 = concat (map token ts)"
    by (simp add: st2_def data_handle_message)
  have "parse_data st = parse_data st2"
    using t2 by (simp add: parse_data_Some [OF found] d st2_def)
  moreover from Cons.prems(2) have "list_all well_formed ts"
    by simp
  note Cons.IH [OF t2 this d2]
  ultimately show ?case by (simp add: r2)
qed

lemma outcome_eqD:
  assumes "outcome a = outcome b"
  shows "terminated a = terminated b" and "records a = records b"
    and "terminated b = None \<Longrightarrow> data a = data b"
  using assms by (auto simp: outcome_def split: option.splits)

text \<open>
  C1. Reading a byte sequence in any pieces (empty ones and single bytes included) ends
  in the same outcome as reading it in one piece: the same records in the same order,
  the same deque, map, frames and error lines, and the same bytes held back. While the
  program runs the bytes held back are those after the last frame delimiter. For a
  sequence of well-formed tokens the records are exactly the tokens' values, in order,
  and no exception is thrown.
\<close>

theorem chunking_invariant:
  "outcome (main_loop chunks st) = outcome (read_bytes (concat chunks) st)
   \<and> (terminated (main_loop chunks initial) = None \<longrightarrow>
        data (main_loop chunks initial) = residue (concat chunks))
   \<and> (list_all well_formed tokens \<and> concat chunks = concat (map token tokens) \<longrightarrow>
        terminated (main_loop chunks initial) = None
        \<and> records (main_loop chunks initial) = map measurement tokens)"
proof (intro conjI impI)
  define w where "w = concat chunks"
  show whole: "outcome (main_loop chunks st) = outcome (read_bytes (concat chunks) st)" for st
    by (rule main_loop_whole)
  have init: "terminated initial = None" "data initial = []" "records initial = []"
    by (simp_all add: initial_def drawRadar_def)
  {
    assume run: "terminated (main_loop chunks initial) = None"
    then have t: "terminated (read_bytes w initial) = None"
      using outcome_eqD(1) [OF whole [of initial]] by (simp add: w_def)
    have "data (read_bytes w initial) = residue w"
    proof (cases "w = []")
      case True
      then show ?thesis by (simp add: read_bytes_def init residue_def)
    next
      case False
      with t have "terminated (parse_data (initial\<lparr>data := w\<rparr>)) = None"
        by (simp add: read_bytes_def init)
      from data_parse_data [OF this] False show ?thesis
        by (simp add: read_bytes_def init)
    qed
    with outcome_eqD(3) [OF whole [of initial]] t
    show "data (main_loop chunks initial) = residue (concat chunks)"
      by (simp add: w_def)
  }
  {
    assume "list_all well_formed tokens \<and> concat chunks = concat (map token tokens)"
    then have wf: "list_all well_formed tokens" and c: "w = concat (map token tokens)"
      by (simp_all add: w_def)
    have "terminated (read_bytes w initial) = None
        \<and> records (read_bytes w initial) = map measurement tokens"
    proof (cases "w = []")
      case True
      with c have "tokens = []"
        by (cases tokens) (simp_all add: token_def)
      with True show ?thesis by (simp add: read_bytes_def init)
    next
      case False
      have "terminated (initial\<lparr>data := w\<rparr>) = None"
        "data (initial\<lparr>data := w\<rparr>) = concat (map token tokens)"
        by (simp_all add: init c)
      from parse_tokens [OF this(1) wf this(2)] False show ?thesis
        by (simp add: read_bytes_def init)
    qed
    with outcome_eqD(1,2) [OF whole [of initial]]
    show "terminated (main_loop chunks initial) = None"
      and "records (main_loop chunks initial) = map measurement tokens"
      by (simp_all add: w_def)
  }
qed

theorem chunking_invariant_witness:
  "outcome (main_loop [''3'', ''0:20|9'', ''0:5|''] initial) = outcome (read_bytes ''30:20|90:5|'' initial)
   \<and> list_all well_formed [(''30'', ''20''), (''90'', ''5'')]
   \<and> records (main_loop [''3'', ''0:20|9'', ''0:5|''] initial) = [(30, 20), (90, 5)]
   \<and> terminated (main_loop [''30:20|4'', ''5''] initial) = None
   \<and> data (main_loop [''30:20|4'', ''5''] initial) = ''45''"
proof -
  have wf: "list_all well_formed [(''30'', ''20''), (''90'', ''5'')]"
    by (simp add: well_formed_def literal_def isdigit_def decimal_def digit_value_def INT_MAX_def)
  have c: "concat [''3'', ''0:20|9'', ''0:5|''] = concat (map token [(''30'', ''20''), (''90'', ''5'')])"
    by (simp add: token_def)
  have m: "map measurement [(''30'', ''20''), (''90'', ''5'')] = [(30, 20), (90, 5)]"
    by (simp add: measurement_def decimal_def digit_value_def)
  have t: "terminated (main_loop [''30:20|4'', ''5''] initial) = None"
    by code_simp
  have r: "residue (concat [''30:20|4'', ''5'']) = ''45''"
    by (simp add: residue_def)
  from chunking_invariant [of "[''3'', ''0:20|9'', ''0:5|'']" initial "[(''30'', ''20''), (''90'', ''5'')]"]
    chunking_invariant [of "[''30:20|4'', ''5'']" initial "[]"] wf c m t r
  show ?thesis
    by simp
qed

subsection \<open>Double arithmetic on whole numbers and at a quarter turn\<close>




















end
